theory Spec2Isabelle
  imports Complex_Main
begin

section \<open>Event detection over a monthly anomaly series\<close>

text \<open>
  The development embeds the function \<open>detect_events\<close> of the script
  "Detect Heatwave Pollution Events.py" (lines 50 to 81):
  \<^verbatim>\<open>
  def detect_events(series, time_index, method='percentile', pct=90,
                    z_thresh=1.5, min_duration_months=2):
      if method == 'percentile':
          threshold = np.percentile(series, pct)
          mask = series > threshold
      elif method == 'zscore':
          mask = series > z_thresh
      else:
          raise ValueError("Method must be 'percentile' or 'zscore'.")
      events = []
      in_event = False
      start_date = None
      for idx, val in enumerate(mask):
          if val and not in_event:
              in_event = True
              start_date = time_index[idx]
          elif not val and in_event:
              end_date = time_index[idx - 1]
              duration = (end_date.to_period('M') - start_date.to_period('M')).n + 1
              if duration >= min_duration_months:
                  events.append((start_date, end_date, duration))
              in_event = False
      if in_event:
          end_date = time_index[-1]
          duration = (end_date.to_period('M') - start_date.to_period('M')).n + 1
          if duration >= min_duration_months:
              events.append((start_date, end_date, duration))
      return events, mask
  \<close>
  The anomaly values are floating-point numbers that the function only compares with
  the threshold; they are modelled as reals (no NaN, no infinity). Every exception the
  function can raise is a value of \<open>py_error\<close>.
\<close>

subsection \<open>Data model\<close>

datatype py_error = ValueError | IndexError | AttributeError

text \<open>A timestamp of the time index, by its calendar fields.\<close>

record timestamp =
  year :: int
  month :: int
  day :: int

text \<open>
  \<open>t.to_period('M')\<close> is the calendar month of \<open>t\<close>; the difference of two
  monthly periods has as its \<open>n\<close> the difference of their ordinals, which count the
  months since January 1970.
\<close>

definition to_period_M :: "timestamp \<Rightarrow> int" where
  "to_period_M t = (year t - 1970) * 12 + (month t - 1)"

type_synonym event = "timestamp \<times> timestamp \<times> int"

text \<open>
  Indexing \<open>time_index[i]\<close> with a Python integer: a negative index counts from the
  end, and an index outside the sequence raises \<open>IndexError\<close>.
\<close>

definition getitem :: "'a list \<Rightarrow> int \<Rightarrow> py_error + 'a" where
  "getitem xs i =
     (if 0 \<le> i \<and> i < int (length xs) then Inr (xs ! nat i)
      else if i < 0 \<and> - int (length xs) \<le> i then Inr (xs ! nat (int (length xs) + i))
      else Inl IndexError)"

text \<open>The variables of the scanning loop.\<close>

record scan_state =
  events :: "event list"
  in_event :: bool
  start_date :: "timestamp option"

definition init_state :: scan_state where
  "init_state = \<lparr>events = [], in_event = False, start_date = None\<rparr>"

subsection \<open>The function\<close>

text \<open>
  Closing a candidate: the duration in whole months, both ends included, and the
  minimum-duration filter (lines 69 to 71, and again 77 to 79). \<open>start_date\<close> is
  \<open>None\<close> until a candidate was opened; calling \<open>to_period\<close> on it would raise
  \<open>AttributeError\<close>.
\<close>

definition close_event ::
  "timestamp option \<Rightarrow> timestamp \<Rightarrow> int \<Rightarrow> event list \<Rightarrow> py_error + event list" where
  "close_event sd end_date min_duration_months evs =
     (case sd of
        None \<Rightarrow> Inl AttributeError
      | Some s \<Rightarrow>
          (let duration = to_period_M end_date - to_period_M s + 1
           in if duration \<ge> min_duration_months
              then Inr (evs @ [(s, end_date, duration)])
              else Inr evs))"

text \<open>The loop \<open>for idx, val in enumerate(mask)\<close> (lines 63 to 72), from index \<open>idx\<close> on.\<close>

fun scan_mask ::
  "timestamp list \<Rightarrow> int \<Rightarrow> nat \<Rightarrow> bool list \<Rightarrow> scan_state \<Rightarrow> py_error + scan_state" where
  "scan_mask time_index md idx [] st = Inr st"
| "scan_mask time_index md idx (val # rest) st =
     (if val \<and> \<not> in_event st then
        (case getitem time_index (int idx) of
           Inl e \<Rightarrow> Inl e
         | Inr t \<Rightarrow>
             scan_mask time_index md (Suc idx) rest
               (st\<lparr>in_event := True, start_date := Some t\<rparr>))
      else if \<not> val \<and> in_event st then
        (case getitem time_index (int idx - 1) of
           Inl e \<Rightarrow> Inl e
         | Inr end_date \<Rightarrow>
             (case close_event (start_date st) end_date md (events st) of
                Inl e \<Rightarrow> Inl e
              | Inr evs \<Rightarrow>
                  scan_mask time_index md (Suc idx) rest
                    (st\<lparr>events := evs, in_event := False\<rparr>)))
      else scan_mask time_index md (Suc idx) rest st)"

text \<open>The closing step after the loop (lines 74 to 79).\<close>

definition finish :: "timestamp list \<Rightarrow> int \<Rightarrow> scan_state \<Rightarrow> py_error + event list" where
  "finish time_index md st =
     (if in_event st then
        (case getitem time_index (- 1) of
           Inl e \<Rightarrow> Inl e
         | Inr end_date \<Rightarrow> close_event (start_date st) end_date md (events st))
      else Inr (events st))"

text \<open>
  Lines 59 to 79: the events of a mask (written \<open>bmask\<close>, since \<open>mask\<close> is a
  constant of the library).
\<close>

definition find_events :: "timestamp list \<Rightarrow> bool list \<Rightarrow> int \<Rightarrow> py_error + event list" where
  "find_events time_index bmask md =
     (case scan_mask time_index md 0 bmask init_state of
        Inl e \<Rightarrow> Inl e
      | Inr st \<Rightarrow> finish time_index md st)"

text \<open>
  Lines 51 to 57: the mask, or the \<open>ValueError\<close> of an unknown method.
  \<open>np.percentile\<close> belongs to NumPy, not to this repository: it is the parameter
  \<open>percentile\<close>, which returns the threshold or raises.
\<close>

definition build_mask ::
  "(real list \<Rightarrow> real \<Rightarrow> py_error + real) \<Rightarrow> real list \<Rightarrow> string \<Rightarrow> real \<Rightarrow> real
     \<Rightarrow> py_error + bool list" where
  "build_mask percentile series method pct z_thresh =
     (if method = ''percentile'' then
        (case percentile series pct of
           Inl e \<Rightarrow> Inl e
         | Inr threshold \<Rightarrow> Inr (map (\<lambda>v. v > threshold) series))
      else if method = ''zscore'' then Inr (map (\<lambda>v. v > z_thresh) series)
      else Inl ValueError)"

definition detect_events ::
  "(real list \<Rightarrow> real \<Rightarrow> py_error + real) \<Rightarrow> real list \<Rightarrow> timestamp list \<Rightarrow> string
     \<Rightarrow> real \<Rightarrow> real \<Rightarrow> int \<Rightarrow> py_error + (event list \<times> bool list)" where
  "detect_events percentile series time_index method pct z_thresh min_duration_months =
     (case build_mask percentile series method pct z_thresh of
        Inl e \<Rightarrow> Inl e
      | Inr bmask \<Rightarrow>
          (case find_events time_index bmask min_duration_months of
             Inl e \<Rightarrow> Inl e
           | Inr evs \<Rightarrow> Inr (evs, bmask)))"

text \<open>The loop followed by the closing step, from any index and loop state.\<close>

definition scan_finish ::
  "timestamp list \<Rightarrow> int \<Rightarrow> nat \<Rightarrow> bool list \<Rightarrow> scan_state \<Rightarrow> py_error + event list" where
  "scan_finish ti md idx bs st =
     (case scan_mask ti md idx bs st of Inl e \<Rightarrow> Inl e | Inr st' \<Rightarrow> finish ti md st')"

subsection \<open>Inputs\<close>

text \<open>
  The threshold the function compares with: what \<open>percentile\<close> returns in percentile mode,
  the literal \<open>z_thresh\<close> in z-score mode.
\<close>

definition threshold_of ::
  "(real list \<Rightarrow> real \<Rightarrow> py_error + real) \<Rightarrow> real list \<Rightarrow> string \<Rightarrow> real \<Rightarrow> real \<Rightarrow> real
     \<Rightarrow> bool" where
  "threshold_of percentile series method pct z_thresh th \<longleftrightarrow>
     (method = ''percentile'' \<and> percentile series pct = Inr th)
     \<or> (method = ''zscore'' \<and> th = z_thresh)"

text \<open>
  The script builds its time index from year and month columns with \<open>day=1\<close> (lines 27
  and 28).
\<close>

definition month_start :: "int \<Rightarrow> int \<Rightarrow> timestamp" where
  "month_start y m = \<lparr>year = y, month = m, day = 1\<rparr>"

text \<open>A time index with one entry per calendar month, in increasing order.\<close>

definition months_increasing :: "timestamp list \<Rightarrow> bool" where
  "months_increasing ti = sorted_wrt (\<lambda>a b. to_period_M a < to_period_M b) ti"

text \<open>A regular monthly time index: every entry is the month after the one before it.\<close>

fun gap_free :: "timestamp list \<Rightarrow> bool" where
  "gap_free (a # b # ts) = (to_period_M b = to_period_M a + 1 \<and> gap_free (b # ts))"
| "gap_free ts = True"

text \<open>
  NumPy's \<open>np.percentile(a, q)\<close> on a one-dimensional array, with its default linear
  interpolation between the two nearest ranks of the sorted values, over the reals:
  a \<open>q\<close> outside 0 to 100 is refused with \<open>ValueError\<close>, and an empty array makes the
  lookup of the ranks fail with \<open>IndexError\<close>.
\<close>

definition np_percentile :: "real list \<Rightarrow> real \<Rightarrow> py_error + real" where
  "np_percentile a q =
     (if q < 0 \<or> 100 < q then Inl ValueError
      else if a = [] then Inl IndexError
      else
        (let s = sort a;
             h = real (length a - 1) * (q / 100);
             lo = nat \<lfloor>h\<rfloor>;
             hi = min (lo + 1) (length a - 1)
         in Inr (s ! lo + (h - real lo) * (s ! hi - s ! lo))))"

subsection \<open>Runs of a mask\<close>

text \<open>
  \<open>true_run bs s k\<close>: the entries \<open>s\<close> to \<open>s + k - 1\<close> of \<open>bs\<close> are a maximal run of
  true entries (the entry before it and the entry after it, where there is one, are
  false).
\<close>

definition true_run :: "bool list \<Rightarrow> nat \<Rightarrow> nat \<Rightarrow> bool" where
  "true_run bs s k \<longleftrightarrow>
     0 < k \<and> s + k \<le> length bs \<and> list_all (\<lambda>b. b) (take k (drop s bs))
     \<and> (s = 0 \<or> \<not> bs ! (s - 1)) \<and> (s + k = length bs \<or> \<not> bs ! (s + k))"

text \<open>
  The maximal runs of true entries from left to right, each as the pair of its first and
  last index; \<open>i\<close> is the index of the head of the list.
\<close>

function true_runs :: "nat \<Rightarrow> bool list \<Rightarrow> (nat \<times> nat) list" where
  "true_runs i [] = []"
| "true_runs i (False # bs) = true_runs (Suc i) bs"
| "true_runs i (True # bs) =
     (i, i + length (takeWhile (\<lambda>b. b) bs))
       # true_runs (Suc i + length (takeWhile (\<lambda>b. b) bs)) (dropWhile (\<lambda>b. b) bs)"
  by pat_completeness auto
termination
  by (relation "measure (\<lambda>(i, bs). length bs)") (auto simp: less_Suc_eq_le length_dropWhile_le)

text \<open>The event of a run, and the events of the runs that last long enough.\<close>

definition run_duration :: "timestamp list \<Rightarrow> nat \<times> nat \<Rightarrow> int" where
  "run_duration ti r = to_period_M (ti ! snd r) - to_period_M (ti ! fst r) + 1"

definition run_event :: "timestamp list \<Rightarrow> nat \<times> nat \<Rightarrow> event" where
  "run_event ti r = (ti ! fst r, ti ! snd r, run_duration ti r)"

definition run_events :: "timestamp list \<Rightarrow> int \<Rightarrow> (nat \<times> nat) list \<Rightarrow> event list" where
  "run_events ti md rs = map (run_event ti) (filter (\<lambda>r. md \<le> run_duration ti r) rs)"

section \<open>The scan computes the runs of the mask\<close>

subsection \<open>Indexing\<close>

lemma getitem_nat: "i < length xs \<Longrightarrow> getitem xs (int i) = Inr (xs ! i)"
  by (simp add: getitem_def)

lemma getitem_pred: "0 < i \<Longrightarrow> i \<le> length xs \<Longrightarrow> getitem xs (int i - 1) = Inr (xs ! (i - 1))"
  by (auto simp add: getitem_def nat_diff_distrib' of_nat_diff)

lemma getitem_last: "xs \<noteq> [] \<Longrightarrow> getitem xs (- 1) = Inr (xs ! (length xs - 1))"
  by (cases xs) (auto simp add: getitem_def)

lemma scan_finish_Nil:
  "scan_finish ti md idx [] st = finish ti md st"
  by (simp add: scan_finish_def)

lemma close_event_Some:
  "close_event (Some (ti ! s)) (ti ! e) md evs = Inr (evs @ run_events ti md [(s, e)])"
  by (simp add: close_event_def run_events_def run_event_def run_duration_def Let_def)

lemma run_events_Cons:
  "evs @ run_events ti md (r # rs) = (evs @ run_events ti md [r]) @ run_events ti md rs"
  by (simp add: run_events_def)

lemma scan_finish_runs:
  "idx + length bs = length ti \<Longrightarrow>
     (\<not> in_event st \<longrightarrow>
        scan_finish ti md idx bs st = Inr (events st @ run_events ti md (true_runs idx bs)))
   \<and> (in_event st \<longrightarrow> (\<forall>s. start_date st = Some (ti ! s) \<longrightarrow> 0 < idx \<longrightarrow>
        scan_finish ti md idx bs st =
          Inr (events st @ run_events ti md
                 ((s, idx + length (takeWhile (\<lambda>b. b) bs) - 1)
                    # true_runs (idx + length (takeWhile (\<lambda>b. b) bs)) (dropWhile (\<lambda>b. b) bs)))))"
proof (induction bs arbitrary: idx st)
  case Nil
  then show ?case
    by (auto simp add: scan_finish_Nil finish_def getitem_last close_event_Some run_events_def)
next
  case (Cons b bs)
  have len: "Suc idx + length bs = length ti" using Cons.prems by simp
  note IH = Cons.IH [OF len]
  show ?case
  proof (cases b)
    case True
    show ?thesis
    proof (intro conjI impI allI)
      assume closed: "\<not> in_event st"
      let ?st = "st\<lparr>in_event := True, start_date := Some (ti ! idx)\<rparr>"
      have "idx < length ti" using Cons.prems by simp
      then have "scan_finish ti md idx (b # bs) st = scan_finish ti md (Suc idx) bs ?st"
        using True closed by (simp add: scan_finish_def getitem_nat)
      also have "\<dots> = Inr (events ?st @ run_events ti md
                 ((idx, Suc idx + length (takeWhile (\<lambda>b. b) bs) - 1)
                    # true_runs (Suc idx + length (takeWhile (\<lambda>b. b) bs)) (dropWhile (\<lambda>b. b) bs)))"
        using IH [of ?st] by simp
      finally show "scan_finish ti md idx (b # bs) st
          = Inr (events st @ run_events ti md (true_runs idx (b # bs)))"
        using True by simp
    next
      fix s
      assume "in_event st" "start_date st = Some (ti ! s)" "0 < idx"
      then show "scan_finish ti md idx (b # bs) st =
          Inr (events st @ run_events ti md
                 ((s, idx + length (takeWhile (\<lambda>b. b) (b # bs)) - 1)
                    # true_runs (idx + length (takeWhile (\<lambda>b. b) (b # bs))) (dropWhile (\<lambda>b. b) (b # bs))))"
        using True IH [of st] by (simp add: scan_finish_def)
    qed
  next
    case False
    show ?thesis
    proof (intro conjI impI allI)
      assume "\<not> in_event st"
      then show "scan_finish ti md idx (b # bs) st
          = Inr (events st @ run_events ti md (true_runs idx (b # bs)))"
        using False IH [of st] by (simp add: scan_finish_def)
    next
      fix s
      assume op: "in_event st" "start_date st = Some (ti ! s)" "0 < idx"
      let ?st = "st\<lparr>events := events st @ run_events ti md [(s, idx - 1)], in_event := False\<rparr>"
      have "idx \<le> length ti" using Cons.prems by simp
      then have "scan_finish ti md idx (b # bs) st = scan_finish ti md (Suc idx) bs ?st"
        using False op by (simp add: scan_finish_def getitem_pred close_event_Some)
      also have "\<dots> = Inr (events ?st @ run_events ti md (true_runs (Suc idx) bs))"
        using IH [of ?st] by simp
      finally show "scan_finish ti md idx (b # bs) st =
          Inr (events st @ run_events ti md
                 ((s, idx + length (takeWhile (\<lambda>b. b) (b # bs)) - 1)
                    # true_runs (idx + length (takeWhile (\<lambda>b. b) (b # bs))) (dropWhile (\<lambda>b. b) (b # bs))))"
        using False by (simp add: run_events_def)
    qed
  qed
qed

lemma find_events_runs:
  "length bmask = length ti \<Longrightarrow>
     find_events ti bmask md = Inr (run_events ti md (true_runs 0 bmask))"
  using scan_finish_runs [of 0 bmask ti init_state md]
  by (simp add: find_events_def scan_finish_def init_state_def)

subsection \<open>Maximal runs\<close>

lemma takeWhile_True: "takeWhile (\<lambda>b. b) bs = replicate (length (takeWhile (\<lambda>b. b) bs)) True"
  by (induction bs) auto

lemma true_runs_fst_ge: "(s, e) \<in> set (true_runs i bs) \<Longrightarrow> i \<le> s"
  by (induction i bs rule: true_runs.induct) auto

lemma true_runs_fst_gt:
  "bs = [] \<or> \<not> hd bs \<Longrightarrow> (s, e) \<in> set (true_runs i bs) \<Longrightarrow> i < s"
  by (cases bs) (auto dest: true_runs_fst_ge)

lemma dropWhile_starts_False:
  "dropWhile (\<lambda>b. b) bs = [] \<or> \<not> hd (dropWhile (\<lambda>b. b) bs)"
  using hd_dropWhile [of "\<lambda>b. b" bs] by blast

lemma true_runs_separated:
  "sorted_wrt (\<lambda>r r'. Suc (snd r) < fst r') (true_runs i bs)"
proof (induction i bs rule: true_runs.induct)
  case (3 i bs)
  have "\<forall>r \<in> set (true_runs (Suc i + length (takeWhile (\<lambda>b. b) bs)) (dropWhile (\<lambda>b. b) bs)).
          Suc i + length (takeWhile (\<lambda>b. b) bs) < fst r"
    using true_runs_fst_gt [OF dropWhile_starts_False] by (metis prod.collapse)
  with 3 show ?case by simp
qed simp_all

lemma true_runs_sound:
  "(s, e) \<in> set (true_runs i bs) \<Longrightarrow>
     \<exists>xs ys. bs = xs @ replicate (Suc e - s) True @ ys \<and> i + length xs = s \<and> s \<le> e
       \<and> (xs = [] \<or> \<not> last xs) \<and> (ys = [] \<or> \<not> hd ys)"
proof (induction i bs rule: true_runs.induct)
  case (1 i)
  then show ?case by simp
next
  case (2 i bs)
  then obtain xs ys where
    "bs = xs @ replicate (Suc e - s) True @ ys" "Suc i + length xs = s" "s \<le> e"
    "xs = [] \<or> \<not> last xs" "ys = [] \<or> \<not> hd ys"
    by auto
  then have "False # bs = (False # xs) @ replicate (Suc e - s) True @ ys
      \<and> i + length (False # xs) = s \<and> s \<le> e
      \<and> (False # xs = [] \<or> \<not> last (False # xs)) \<and> (ys = [] \<or> \<not> hd ys)"
    by auto
  then show ?case by blast
next
  case (3 i bs)
  let ?tw = "takeWhile (\<lambda>b. b) bs" and ?dw = "dropWhile (\<lambda>b. b) bs"
  let ?n = "length ?tw"
  from "3.prems" consider (head) "s = i" "e = i + ?n"
    | (tail) "(s, e) \<in> set (true_runs (Suc i + ?n) ?dw)"
    by auto
  then show ?case
  proof cases
    case head
    have "True # bs = [] @ replicate (Suc e - s) True @ ?dw"
      using head takeWhile_True [of bs] takeWhile_dropWhile_id [of "\<lambda>b. b" bs]
      by (metis Suc_diff_le append_Nil diff_add_inverse le_add1 replicate_Suc append_Cons)
    then show ?thesis
      using head dropWhile_starts_False [of bs] by (metis add_0_right le_add1 list.size(3))
  next
    case tail
    from "3.IH" [OF tail] obtain xs ys where d:
      "?dw = xs @ replicate (Suc e - s) True @ ys" "Suc i + ?n + length xs = s" "s \<le> e"
      "xs = [] \<or> \<not> last xs" "ys = [] \<or> \<not> hd ys"
      by auto
    have "xs \<noteq> []"
    proof
      assume "xs = []"
      with d have "?dw \<noteq> [] \<and> hd ?dw" by (simp add: Suc_diff_le)
      with dropWhile_starts_False [of bs] show False by blast
    qed
    with d have "True # bs = (True # ?tw @ xs) @ replicate (Suc e - s) True @ ys
        \<and> i + length (True # ?tw @ xs) = s \<and> s \<le> e
        \<and> (True # ?tw @ xs = [] \<or> \<not> last (True # ?tw @ xs)) \<and> (ys = [] \<or> \<not> hd ys)"
      using takeWhile_dropWhile_id [of "\<lambda>b. b" bs] by (auto simp: append_eq_append_conv2) 
    then show ?thesis by blast
  qed
qed

lemma takeWhile_app_False:
  "takeWhile (\<lambda>b. b) (bs @ False # ys) = takeWhile (\<lambda>b. b) bs"
  by (induction bs) auto

lemma dropWhile_app_False:
  "dropWhile (\<lambda>b. b) (bs @ False # ys) = dropWhile (\<lambda>b. b) bs @ False # ys"
  by (induction bs) auto

lemma length_take_drop_While:
  "length (takeWhile (\<lambda>b. b) bs) + length (dropWhile (\<lambda>b. b) bs) = length bs"
  by (induction bs) auto

lemma true_runs_append_False:
  "true_runs i (xs @ False # ys) = true_runs i xs @ true_runs (Suc (i + length xs)) ys"
proof (induction i xs rule: true_runs.induct)
  case (3 i bs)
  then show ?case
    using length_take_drop_While [of bs]
    by (simp add: takeWhile_app_False dropWhile_app_False) (metis add_Suc_right add.assoc)
qed simp_all

lemma true_runs_snoc_False: "true_runs i (xs @ [False]) = true_runs i xs"
  by (simp add: true_runs_append_False)

lemma true_runs_all_True:
  "0 < k \<Longrightarrow> true_runs i (replicate k True) = [(i, i + k - 1)]"
  by (cases k) simp_all

lemma true_runs_all_False: "true_runs i (replicate k False) = []"
  by (induction k arbitrary: i) simp_all

lemma true_runs_skip_False: "true_runs i (replicate a False @ bs) = true_runs (i + a) bs"
  by (induction a arbitrary: i) simp_all

lemma true_runs_run_then_False:
  "0 < k \<Longrightarrow> true_runs i (replicate k True @ False # ys)
     = (i, i + k - 1) # true_runs (Suc (i + k)) ys"
  by (simp add: true_runs_append_False true_runs_all_True)

lemma true_runs_none: "\<forall>b \<in> set bs. \<not> b \<Longrightarrow> true_runs i bs = []"
  by (induction i bs rule: true_runs.induct) auto

lemma true_runs_complete_struct:
  assumes "0 < k" "xs = [] \<or> \<not> last xs" "ys = [] \<or> \<not> hd ys"
  shows "(i + length xs, i + length xs + k - 1) \<in> set (true_runs i (xs @ replicate k True @ ys))"
proof -
  have run: "(j, j + k - 1) \<in> set (true_runs j (replicate k True @ ys))" for j
  proof (cases ys)
    case Nil
    then show ?thesis using assms(1) by (simp add: true_runs_all_True)
  next
    case (Cons y ys')
    with assms(3) have "ys = False # ys'" by simp
    then show ?thesis using assms(1) by (simp add: true_runs_run_then_False)
  qed
  show ?thesis
  proof (cases "xs = []")
    case True
    then show ?thesis using run [of i] by simp
  next
    case False
    with assms(2) obtain xs' where xs: "xs = xs' @ [False]"
      by (metis append_butlast_last_id)
    have "true_runs i (xs @ replicate k True @ ys)
        = true_runs i xs' @ true_runs (Suc (i + length xs')) (replicate k True @ ys)"
      using true_runs_append_False [of i xs' "replicate k True @ ys"] xs by simp
    then show ?thesis using run [of "Suc (i + length xs')"] xs by simp
  qed
qed

lemma list_all_True_replicate:
  "list_all (\<lambda>b. b) xs \<longleftrightarrow> xs = replicate (length xs) True"
  by (induction xs) auto

lemma true_run_struct:
  "true_run bs s k \<longleftrightarrow>
     (\<exists>xs ys. bs = xs @ replicate k True @ ys \<and> length xs = s \<and> 0 < k
        \<and> (xs = [] \<or> \<not> last xs) \<and> (ys = [] \<or> \<not> hd ys))"
proof
  assume r: "true_run bs s k"
  then have k: "0 < k" and len: "s + k \<le> length bs"
    and all: "list_all (\<lambda>b. b) (take k (drop s bs))"
    and before: "s = 0 \<or> \<not> bs ! (s - 1)" and after: "s + k = length bs \<or> \<not> bs ! (s + k)"
    by (simp_all add: true_run_def)
  let ?xs = "take s bs" and ?ys = "drop (s + k) bs"
  have "take k (drop s bs) = replicate k True"
    using all len by (simp add: list_all_True_replicate)
  then have "bs = ?xs @ replicate k True @ ?ys"
    by (metis append_take_drop_id drop_drop add.commute)
  moreover have "length ?xs = s" using len by simp
  moreover have "?xs = [] \<or> \<not> last ?xs"
  proof (cases "s = 0")
    case False
    then have "?xs \<noteq> []" "length ?xs = s" using len by auto
    then have "last ?xs = bs ! (s - 1)" using False by (simp add: last_conv_nth)
    with before False show ?thesis by simp
  qed simp
  moreover have "?ys = [] \<or> \<not> hd ?ys"
  proof (cases "s + k = length bs")
    case False
    then have "hd ?ys = bs ! (s + k)" using len by (simp add: hd_drop_conv_nth)
    with after False show ?thesis by simp
  qed simp
  ultimately show "\<exists>xs ys. bs = xs @ replicate k True @ ys \<and> length xs = s \<and> 0 < k
        \<and> (xs = [] \<or> \<not> last xs) \<and> (ys = [] \<or> \<not> hd ys)"
    using k by blast
next
  assume "\<exists>xs ys. bs = xs @ replicate k True @ ys \<and> length xs = s \<and> 0 < k
        \<and> (xs = [] \<or> \<not> last xs) \<and> (ys = [] \<or> \<not> hd ys)"
  then obtain xs ys where bs: "bs = xs @ replicate k True @ ys" and s: "length xs = s"
    and k: "0 < k" and xs: "xs = [] \<or> \<not> last xs" and ys: "ys = [] \<or> \<not> hd ys"
    by blast
  have "s = 0 \<or> \<not> bs ! (s - 1)"
  proof (cases "xs = []")
    case False
    then have "0 < s" using s by auto
    then have "bs ! (s - 1) = last xs" using bs s False by (auto simp add: nth_append last_conv_nth)
    with xs False show ?thesis by simp
  qed (use s in simp)
  moreover have "s + k = length bs \<or> \<not> bs ! (s + k)"
  proof (cases "ys = []")
    case False
    then have "bs ! (s + k) = hd ys" using bs s by (simp add: nth_append hd_conv_nth)
    with ys False show ?thesis by simp
  qed (use bs s in simp)
  moreover have "list_all (\<lambda>b. b) (take k (drop s bs))"
    using bs s by (simp add: list_all_True_replicate)
  ultimately show "true_run bs s k" using bs s k by (simp add: true_run_def)
qed

lemma true_runs_iff:
  "(s, e) \<in> set (true_runs 0 bs) \<longleftrightarrow> s \<le> e \<and> true_run bs s (Suc e - s)"
proof
  assume "(s, e) \<in> set (true_runs 0 bs)"
  from true_runs_sound [OF this] obtain xs ys where
    "bs = xs @ replicate (Suc e - s) True @ ys" "length xs = s" "s \<le> e"
    "xs = [] \<or> \<not> last xs" "ys = [] \<or> \<not> hd ys"
    by auto
  moreover from this have "0 < Suc e - s" by simp
  ultimately show "s \<le> e \<and> true_run bs s (Suc e - s)"
    unfolding true_run_struct by blast
next
  assume a: "s \<le> e \<and> true_run bs s (Suc e - s)"
  then obtain xs ys where bs: "bs = xs @ replicate (Suc e - s) True @ ys" and s: "length xs = s"
    and xs: "xs = [] \<or> \<not> last xs" and ys: "ys = [] \<or> \<not> hd ys"
    unfolding true_run_struct by blast
  have "(0 + length xs, 0 + length xs + (Suc e - s) - 1) \<in> set (true_runs 0 bs)"
    unfolding bs using a xs ys by (intro true_runs_complete_struct) auto
  then show "(s, e) \<in> set (true_runs 0 bs)" using a s by simp
qed

subsection \<open>Shapes of masks\<close>

lemma true_runs_bounds:
  "(s, e) \<in> set (true_runs 0 bs) \<Longrightarrow> s \<le> e \<and> e < length bs"
  by (auto simp add: true_runs_iff true_run_def)

lemma true_runs_single:
  assumes "0 < k"
  shows "true_runs i (replicate a False @ replicate k True @ replicate b False)
    = [(i + a, i + a + k - 1)]"
proof (cases b)
  case 0
  then show ?thesis using assms by (simp add: true_runs_skip_False true_runs_all_True)
next
  case (Suc b')
  then show ?thesis
    using assms
    by (simp add: true_runs_skip_False true_runs_run_then_False true_runs_all_False)
qed

lemma true_runs_two:
  assumes "0 < k" "0 < g" "0 < l"
  shows "true_runs i (replicate a False @ replicate k True @ replicate g False
            @ replicate l True @ replicate b False)
    = [(i + a, i + a + k - 1), (i + a + k + g, i + a + k + g + l - 1)]"
proof -
  obtain g' where g: "g = Suc g'" using assms(2) by (cases g) auto
  have "true_runs i (replicate a False @ replicate k True @ replicate g False
            @ replicate l True @ replicate b False)
      = (i + a, i + a + k - 1)
          # true_runs (Suc (i + a + k)) (replicate g' False @ replicate l True @ replicate b False)"
    using assms(1) g by (simp add: true_runs_skip_False true_runs_run_then_False)
  also have "true_runs (Suc (i + a + k)) (replicate g' False @ replicate l True @ replicate b False)
      = [(Suc (i + a + k) + g', Suc (i + a + k) + g' + l - 1)]"
    using assms(3) by (rule true_runs_single)
  finally show ?thesis using g by simp
qed

lemma true_runs_final_run:
  assumes "xs = [] \<or> \<not> last xs" "0 < k"
  shows "true_runs j (xs @ replicate k True)
    = true_runs j xs @ [(j + length xs, j + length xs + k - 1)]"
proof (cases "xs = []")
  case True
  then show ?thesis using assms(2) by (simp add: true_runs_all_True)
next
  case False
  with assms(1) obtain xs' where xs: "xs = xs' @ [False]"
    by (metis append_butlast_last_id)
  then show ?thesis
    using assms(2) true_runs_append_False [of j xs' "replicate k True"]
    by (simp add: true_runs_snoc_False true_runs_all_True)
qed

lemma final_run_split:
  assumes "bs \<noteq> []" "last bs"
  defines "k \<equiv> length (takeWhile (\<lambda>b. b) (rev bs))"
  shows "0 < k \<and> k \<le> length bs
    \<and> bs = take (length bs - k) bs @ replicate k True
    \<and> (take (length bs - k) bs = [] \<or> \<not> last (take (length bs - k) bs))"
proof -
  let ?tw = "takeWhile (\<lambda>b. b) (rev bs)" and ?dw = "dropWhile (\<lambda>b. b) (rev bs)"
  have "rev bs \<noteq> []" "hd (rev bs)"
    using assms(1,2) by (simp_all add: hd_rev)
  then have pos: "0 < k"
    unfolding k_def by (cases "rev bs") auto
  have le: "k \<le> length bs"
    unfolding k_def using length_takeWhile_le [of "\<lambda>b. b" "rev bs"] by simp
  have split: "bs = rev ?dw @ rev ?tw"
    by (metis rev_append rev_rev_ident takeWhile_dropWhile_id)
  have tw: "rev ?tw = replicate k True"
    unfolding k_def using takeWhile_True [of "rev bs"] by (metis rev_replicate)
  have "length (rev ?dw) = length bs - k"
    unfolding k_def using length_take_drop_While [of "rev bs"] by simp
  then have take: "take (length bs - k) bs = rev ?dw"
    using split by (metis append_eq_conv_conj)
  have "rev ?dw = [] \<or> \<not> last (rev ?dw)"
    using dropWhile_starts_False [of "rev bs"] by (auto simp add: last_rev)
  with pos le split tw take show ?thesis by simp
qed

subsection \<open>Monthly time indexes\<close>

lemma gap_free_step:
  "gap_free ti \<Longrightarrow> Suc i < length ti \<Longrightarrow> to_period_M (ti ! Suc i) = to_period_M (ti ! i) + 1"
proof (induction ti arbitrary: i rule: gap_free.induct)
  case (1 a b ts)
  then show ?case by (cases i) auto
qed simp_all

lemma gap_free_nth:
  "gap_free ti \<Longrightarrow> i \<le> j \<Longrightarrow> j < length ti \<Longrightarrow>
     to_period_M (ti ! j) = to_period_M (ti ! i) + int (j - i)"
proof (induction j)
  case 0
  then show ?case by simp
next
  case (Suc j)
  show ?case
  proof (cases "i = Suc j")
    case True
    then show ?thesis by simp
  next
    case False
    with Suc.prems have "i \<le> j" "j < length ti" by simp_all
    with Suc have "to_period_M (ti ! j) = to_period_M (ti ! i) + int (j - i)" by simp
    moreover have "to_period_M (ti ! Suc j) = to_period_M (ti ! j) + 1"
      using gap_free_step Suc.prems by simp
    ultimately show ?thesis using \<open>i \<le> j\<close> by (simp add: Suc_diff_le)
  qed
qed

lemma months_increasing_nth:
  "months_increasing ti \<Longrightarrow> i < j \<Longrightarrow> j < length ti \<Longrightarrow>
     to_period_M (ti ! i) < to_period_M (ti ! j)"
  unfolding months_increasing_def by (rule sorted_wrt_nth_less)

lemma months_increasing_span:
  "months_increasing ti \<Longrightarrow> i \<le> j \<Longrightarrow> j < length ti \<Longrightarrow>
     to_period_M (ti ! i) + int (j - i) \<le> to_period_M (ti ! j)"
proof (induction j)
  case 0
  then show ?case by simp
next
  case (Suc j)
  show ?case
  proof (cases "i = Suc j")
    case True
    then show ?thesis by simp
  next
    case False
    with Suc.prems have ij: "i \<le> j" "j < length ti" by simp_all
    with Suc have "to_period_M (ti ! i) + int (j - i) \<le> to_period_M (ti ! j)" by simp
    moreover have "to_period_M (ti ! j) < to_period_M (ti ! Suc j)"
      using months_increasing_nth [of ti j "Suc j"] Suc.prems by simp
    ultimately show ?thesis using ij by (simp add: Suc_diff_le)
  qed
qed

lemma gap_free_increasing: "gap_free ti \<Longrightarrow> months_increasing ti"
  unfolding months_increasing_def sorted_wrt_iff_nth_less
proof (intro allI impI)
  fix i j assume "gap_free ti" "i < j" "j < length ti"
  then show "to_period_M (ti ! i) < to_period_M (ti ! j)"
    using gap_free_nth [of ti i j] by simp
qed

subsection \<open>Events of runs\<close>

lemma run_events_iff:
  "ev \<in> set (run_events ti md rs) \<longleftrightarrow>
     (\<exists>r \<in> set rs. md \<le> run_duration ti r \<and> ev = run_event ti r)"
  by (auto simp add: run_events_def)

lemma run_events_one:
  "run_events ti md [(s, e)]
     = (if md \<le> run_duration ti (s, e) then [(ti ! s, ti ! e, run_duration ti (s, e))] else [])"
  by (simp add: run_events_def run_event_def)

lemma run_events_append:
  "run_events ti md (rs @ rs') = run_events ti md rs @ run_events ti md rs'"
  by (simp add: run_events_def)

lemma run_duration_gap_free:
  "gap_free ti \<Longrightarrow> s \<le> e \<Longrightarrow> e < length ti \<Longrightarrow> run_duration ti (s, e) = int (Suc e - s)"
  using gap_free_nth [of ti s e] by (simp add: run_duration_def Suc_diff_le)

lemma run_duration_increasing:
  "months_increasing ti \<Longrightarrow> s \<le> e \<Longrightarrow> e < length ti \<Longrightarrow> int (Suc e - s) \<le> run_duration ti (s, e)"
  using months_increasing_span [of ti s e] by (simp add: run_duration_def Suc_diff_le)

lemma run_events_cong:
  assumes "\<forall>r \<in> set rs. fst r < n \<and> snd r < n" "take n ti = take n ti'"
  shows "run_events ti md rs = run_events ti' md rs"
proof -
  have "ti ! k = ti' ! k" if "k < n" for k
    using assms(2) that by (metis nth_take)
  then have "\<forall>r \<in> set rs. run_duration ti r = run_duration ti' r \<and> run_event ti r = run_event ti' r"
    using assms(1) by (simp add: run_duration_def run_event_def)
  then show ?thesis
    unfolding run_events_def by (induction rs) auto
qed

lemma run_events_prefix:
  "run_events (take i ti) md (true_runs 0 (take i bs)) = run_events ti md (true_runs 0 (take i bs))"
proof (rule run_events_cong [where n = i])
  show "\<forall>r \<in> set (true_runs 0 (take i bs)). fst r < i \<and> snd r < i"
    using true_runs_bounds [of _ _ "take i bs"] by fastforce
qed simp

lemma run_events_snoc:
  "length bs = length ti \<Longrightarrow>
     run_events (ti @ [t]) md (true_runs 0 bs) = run_events ti md (true_runs 0 bs)"
proof (rule run_events_cong [where n = "length ti"])
  assume "length bs = length ti"
  then show "\<forall>r \<in> set (true_runs 0 bs). fst r < length ti \<and> snd r < length ti"
    using true_runs_bounds [of _ _ bs] by fastforce
qed simp

lemma run_events_sorted:
  assumes "months_increasing ti" "length bs = length ti"
  shows "sorted_wrt (\<lambda>a b. to_period_M (fst (snd a)) < to_period_M (fst b))
           (run_events ti md (true_runs 0 bs))"
proof -
  have "sorted_wrt (\<lambda>r r'. to_period_M (ti ! snd r) < to_period_M (ti ! fst r'))
          (true_runs 0 bs)"
  proof (rule sorted_wrt_mono_rel [OF _ true_runs_separated [of 0 bs]])
    fix r r' assume "r \<in> set (true_runs 0 bs)" "r' \<in> set (true_runs 0 bs)"
      and "Suc (snd r) < fst r'"
    moreover from this have "fst r' < length ti"
      using true_runs_bounds [of "fst r'" "snd r'" bs] assms(2) by simp
    ultimately show "to_period_M (ti ! snd r) < to_period_M (ti ! fst r')"
      using months_increasing_nth [OF assms(1), of "snd r" "fst r'"] by simp
  qed
  then have "sorted_wrt (\<lambda>r r'. to_period_M (ti ! snd r) < to_period_M (ti ! fst r'))
          (filter (\<lambda>r. md \<le> run_duration ti r) (true_runs 0 bs))"
    by (rule sorted_wrt_filter)
  then show ?thesis
    by (simp add: run_events_def sorted_wrt_map run_event_def)
qed

lemma event_of_run:
  assumes "ev \<in> set (run_events ti md (true_runs 0 bs))"
  obtains s e where "s \<le> e" "e < length bs" "true_run bs s (Suc e - s)"
    "md \<le> run_duration ti (s, e)" "ev = (ti ! s, ti ! e, run_duration ti (s, e))"
proof -
  from assms obtain r where r: "r \<in> set (true_runs 0 bs)" "md \<le> run_duration ti r"
    "ev = run_event ti r"
    by (auto simp add: run_events_iff)
  obtain s e where se: "r = (s, e)" by (cases r)
  with r(1) have "s \<le> e" "e < length bs" "true_run bs s (Suc e - s)"
    using true_runs_bounds [of s e bs] by (simp_all add: true_runs_iff)
  then show thesis
    using r se that by (simp add: run_event_def)
qed

subsection \<open>The function in terms of runs\<close>

lemma build_mask_threshold:
  "threshold_of P series method pct z th \<Longrightarrow>
     build_mask P series method pct z = Inr (map (\<lambda>v. th < v) series)"
  by (auto simp add: threshold_of_def build_mask_def)

lemma detect_events_runs:
  assumes "threshold_of P series method pct z th" "length ti = length series"
  shows "detect_events P series ti method pct z md
    = Inr (run_events ti md (true_runs 0 (map (\<lambda>v. th < v) series)), map (\<lambda>v. th < v) series)"
  using assms by (simp add: detect_events_def build_mask_threshold find_events_runs)

lemma scan_mask_all_False:
  "\<forall>b \<in> set bs. \<not> b \<Longrightarrow> \<not> in_event st \<Longrightarrow> scan_mask ti md idx bs st = Inr st"
  by (induction bs arbitrary: idx) auto

lemma find_events_all_False:
  "\<forall>b \<in> set bs. \<not> b \<Longrightarrow> find_events ti bs md = Inr []"
  by (simp add: find_events_def scan_mask_all_False init_state_def finish_def)

lemma detect_events_quiet:
  assumes "threshold_of P series method pct z th" and "\<forall>v \<in> set series. \<not> v > th"
  shows "detect_events P series ti method pct z md = Inr ([], replicate (length series) False)"
proof -
  have "map (\<lambda>v. th < v) series = replicate (length series) False"
    using assms(2) by (simp add: map_replicate_const [symmetric] cong: map_cong)
  then show ?thesis
    using assms(1) by (simp add: detect_events_def build_mask_threshold find_events_all_False)
qed

subsection \<open>Worked inputs\<close>

lemmas eval_defs =
  detect_events_def build_mask_def find_events_def init_state_def getitem_def finish_def
  close_event_def to_period_M_def month_start_def

lemma example_2020:
  "detect_events np_percentile [0, 0, 5, 5, 5, 0, 0, 5, 0]
     (map (month_start 2020) [1, 2, 3, 4, 5, 6, 7, 8, 9]) ''zscore'' 90 (3/2) 2
   = Inr ([(month_start 2020 3, month_start 2020 5, 3)],
          [False, False, True, True, True, False, False, True, False])"
  by (simp add: eval_defs)

lemma example_2020_threshold:
  "threshold_of np_percentile [0, 0, 5, 5, 5, 0, 0, 5, 0] ''zscore'' 90 (3/2) (3/2)"
  by (simp add: threshold_of_def)

lemma example_2020_increasing:
  "months_increasing (map (month_start 2020) [1, 2, 3, 4, 5, 6, 7, 8, 9])"
  by (simp add: months_increasing_def month_start_def to_period_M_def)

lemma example_short:
  "threshold_of np_percentile [0, 5, 5, 0] ''zscore'' 90 (3/2) (3/2)"
  "length (map (month_start 2020) [1, 2, 3, 4]) = length [0, 5, 5, 0 :: real]"
  "gap_free (map (month_start 2020) [1, 2, 3, 4])"
  "map (\<lambda>v. v > 3/2) [0, 5, 5, 0 :: real] = replicate 1 False @ replicate 2 True @ replicate 1 False"
  by (simp_all add: threshold_of_def month_start_def to_period_M_def numeral_2_eq_2)

lemma example_two_runs:
  "threshold_of np_percentile [5, 5, 0, 5, 5] ''zscore'' 90 (3/2) (3/2)"
  "length (map (month_start 2020) [1, 2, 3, 4, 5]) = length [5, 5, 0, 5, 5 :: real]"
  "months_increasing (map (month_start 2020) [1, 2, 3, 4, 5])"
  "map (\<lambda>v. v > 3/2) [5, 5, 0, 5, 5 :: real]
     = replicate 0 False @ replicate 2 True @ replicate 1 False @ replicate 2 True
         @ replicate 0 False"
  by (simp_all add: threshold_of_def months_increasing_def month_start_def to_period_M_def
      numeral_2_eq_2)

lemma example_open_run:
  "threshold_of np_percentile [0, 5, 0, 5, 5] ''zscore'' 90 (3/2) (3/2)"
  "length (map (month_start 2020) [1, 2, 3, 4, 5]) = length [0, 5, 0, 5, 5 :: real]"
  "[0, 5, 0, 5, 5 :: real] \<noteq> []"
  "last [0, 5, 0, 5, 5 :: real] > 3/2"
  "(3 :: nat) = length [0, 5, 0, 5, 5 :: real]
      - length (takeWhile (\<lambda>x. x > 3/2) (rev [0, 5, 0, 5, 5 :: real]))"
  "(2 :: int) = to_period_M (last (map (month_start 2020) [1, 2, 3, 4, 5]))
      - to_period_M (map (month_start 2020) [1, 2, 3, 4, 5] ! 3) + 1"
  by (simp_all add: threshold_of_def month_start_def to_period_M_def)

lemma example_open_run_extended:
  "threshold_of np_percentile ([0, 5, 0, 5, 5] @ [0]) ''zscore'' 90 (3/2) (3/2)
     \<and> \<not> (0 :: real) > 3/2"
  by (simp add: threshold_of_def)

lemma example_open_percentile:
  "threshold_of np_percentile [0, 10] ''percentile'' 10 (3/2) 1"
  "length (map (month_start 2020) [1, 2]) = length [0, 10 :: real]"
  "[0, 10 :: real] \<noteq> []"
  "last [0, 10 :: real] > 1"
  "(1 :: nat) = length [0, 10 :: real]
      - length (takeWhile (\<lambda>x. x > 1) (rev [0, 10 :: real]))"
  "(1 :: int) = to_period_M (last (map (month_start 2020) [1, 2]))
      - to_period_M (map (month_start 2020) [1, 2] ! 1) + 1"
  by (simp_all add: threshold_of_def np_percentile_def month_start_def to_period_M_def)

section \<open>The claims\<close>

text \<open>
  Claim C1. The monthly series \<open>[0,0,5,5,5,0,0,5,0]\<close> over January to September of a year
  \<open>y\<close>, with a threshold from 0 up to but not including 5 in either mode and a minimum
  duration of two months, gives exactly one event, March to May with duration 3; the
  single month of August gives none.
\<close>

theorem example_series_one_event:
  assumes "threshold_of P [0, 0, 5, 5, 5, 0, 0, 5, 0] method pct z th" "0 \<le> th" "th < 5"
  shows "detect_events P [0, 0, 5, 5, 5, 0, 0, 5, 0]
           (map (month_start y) [1, 2, 3, 4, 5, 6, 7, 8, 9]) method pct z 2
         = Inr ([(month_start y 3, month_start y 5, 3)],
                [False, False, True, True, True, False, False, True, False])"
proof -
  have "detect_events P [0, 0, 5, 5, 5, 0, 0, 5, 0]
           (map (month_start y) [1, 2, 3, 4, 5, 6, 7, 8, 9]) method pct z 2
      = Inr (run_events (map (month_start y) [1, 2, 3, 4, 5, 6, 7, 8, 9]) 2
               (true_runs 0 (map (\<lambda>v. th < v) [0, 0, 5, 5, 5, 0, 0, 5, 0])),
             map (\<lambda>v. th < v) [0, 0, 5, 5, 5, 0, 0, 5, 0])"
    using assms(1) by (intro detect_events_runs) simp_all
  then show ?thesis
    using assms(2,3)
    by (simp add: run_events_def run_event_def run_duration_def month_start_def to_period_M_def)
qed

theorem example_series_one_event_witness:
  "threshold_of np_percentile [0, 0, 5, 5, 5, 0, 0, 5, 0] ''zscore'' 90 (3/2) (3/2)
   \<and> (0::real) \<le> 3/2 \<and> (3/2::real) < 5
   \<and> detect_events np_percentile [0, 0, 5, 5, 5, 0, 0, 5, 0]
           (map (month_start 2020) [1, 2, 3, 4, 5, 6, 7, 8, 9]) ''zscore'' 90 (3/2) 2
         = Inr ([(month_start 2020 3, month_start 2020 5, 3)],
                [False, False, True, True, True, False, False, True, False])
   \<and> threshold_of np_percentile [0, 0, 5, 5, 5, 0, 0, 5, 0] ''percentile'' 50 (3/2) 0
   \<and> (0::real) \<le> 0 \<and> (0::real) < 5
   \<and> detect_events np_percentile [0, 0, 5, 5, 5, 0, 0, 5, 0]
           (map (month_start 2021) [1, 2, 3, 4, 5, 6, 7, 8, 9]) ''percentile'' 50 (3/2) 2
         = Inr ([(month_start 2021 3, month_start 2021 5, 3)],
                [False, False, True, True, True, False, False, True, False])"
proof -
  have h: "threshold_of np_percentile [0, 0, 5, 5, 5, 0, 0, 5, 0] ''zscore'' 90 (3/2) (3/2)"
    by (simp add: threshold_of_def)
  have p: "threshold_of np_percentile [0, 0, 5, 5, 5, 0, 0, 5, 0] ''percentile'' 50 (3/2) 0"
    by (simp add: threshold_of_def np_percentile_def)
  show ?thesis
    using h p example_series_one_event [OF h, of 2020] example_series_one_event [OF p, of 2021]
    by simp
qed

text \<open>
  Claim C2. On a valid input (a time index as long as the series, each entry the month
  after the one before) the events are exactly the maximal runs of true mask entries that
  last at least \<open>min_duration_months\<close>: a run of \<open>k\<close> entries starting at index \<open>s\<close>
  gives the event from \<open>time_index[s]\<close> to \<open>time_index[s + k - 1]\<close> with duration \<open>k\<close>
  if and only if \<open>k\<close> is at least the minimum, and every event is such a run, never a
  merge of runs. A mask with a single run gives exactly one event when the run is as long
  as the minimum (or longer) and none when it is shorter.
\<close>

theorem min_duration_filter:
  assumes "threshold_of percentile series method pct z_thresh th"
    and "length time_index = length series"
    and "gap_free time_index"
  shows "\<exists>evs bmask.
           detect_events percentile series time_index method pct z_thresh md = Inr (evs, bmask)
           \<and> bmask = map (\<lambda>v. v > th) series
           \<and> (\<forall>s k. true_run bmask s k \<longrightarrow>
                 ((time_index ! s, time_index ! (s + k - 1), int k) \<in> set evs \<longleftrightarrow> md \<le> int k))
           \<and> (\<forall>ev \<in> set evs. \<exists>s k. true_run bmask s k
                 \<and> ev = (time_index ! s, time_index ! (s + k - 1), int k))
           \<and> (\<forall>a k b. bmask = replicate a False @ replicate k True @ replicate b False \<and> 0 < k
                 \<longrightarrow> evs = (if md \<le> int k
                            then [(time_index ! a, time_index ! (a + k - 1), int k)] else []))"
proof -
  let ?bmask = "map (\<lambda>v. th < v) series"
  let ?evs = "run_events time_index md (true_runs 0 ?bmask)"
  have len: "length ?bmask = length time_index" using assms(2) by simp
  have A: "(time_index ! s, time_index ! (s + k - 1), int k) \<in> set ?evs \<longleftrightarrow> md \<le> int k"
    if "true_run ?bmask s k" for s k
  proof
    assume "(time_index ! s, time_index ! (s + k - 1), int k) \<in> set ?evs"
    then obtain i j where "md \<le> run_duration time_index (i, j)"
      "(time_index ! s, time_index ! (s + k - 1), int k)
         = (time_index ! i, time_index ! j, run_duration time_index (i, j))"
      by (rule event_of_run)
    then show "md \<le> int k" by simp
  next
    assume md: "md \<le> int k"
    from that have k: "0 < k" "s + k \<le> length ?bmask" by (simp_all add: true_run_def)
    then have run: "(s, s + k - 1) \<in> set (true_runs 0 ?bmask)"
      using that by (simp add: true_runs_iff)
    have "run_duration time_index (s, s + k - 1) = int k"
      using run_duration_gap_free [OF assms(3), of s "s + k - 1"] k len by simp
    then show "(time_index ! s, time_index ! (s + k - 1), int k) \<in> set ?evs"
      using run md by (force simp add: run_events_iff run_event_def)
  qed
  have B: "\<exists>s k. true_run ?bmask s k \<and> ev = (time_index ! s, time_index ! (s + k - 1), int k)"
    if "ev \<in> set ?evs" for ev
  proof -
    from that obtain s e where se: "s \<le> e" "e < length ?bmask" "true_run ?bmask s (Suc e - s)"
      "ev = (time_index ! s, time_index ! e, run_duration time_index (s, e))"
      by (rule event_of_run)
    then have "run_duration time_index (s, e) = int (Suc e - s)"
      using run_duration_gap_free [OF assms(3), of s e] len by simp
    with se have "true_run ?bmask s (Suc e - s)
        \<and> ev = (time_index ! s, time_index ! (s + (Suc e - s) - 1), int (Suc e - s))"
      by simp
    then show ?thesis by blast
  qed
  have C: "?evs = (if md \<le> int k then [(time_index ! a, time_index ! (a + k - 1), int k)] else [])"
    if "?bmask = replicate a False @ replicate k True @ replicate b False \<and> 0 < k" for a k b
  proof -
    from that have shape: "?bmask = replicate a False @ replicate k True @ replicate b False"
      and k: "0 < k" by simp_all
    have "length ?bmask = a + k + b" by (subst shape) simp
    then have "a + k - 1 < length time_index" using k len by simp
    then have "run_duration time_index (a, a + k - 1) = int k"
      using run_duration_gap_free [OF assms(3), of a "a + k - 1"] k by simp
    moreover have "true_runs 0 ?bmask = [(a, a + k - 1)]"
      using true_runs_single [OF k, of 0 a b] shape by simp
    ultimately show ?thesis by (simp add: run_events_one)
  qed
  show ?thesis
    using detect_events_runs [OF assms(1,2), of md] A B C by (intro exI conjI) blast+
qed

theorem min_duration_filter_witness:
  "threshold_of np_percentile [0, 5, 5, 0] ''zscore'' 90 (3/2) (3/2)
   \<and> length (map (month_start 2020) [1, 2, 3, 4]) = length [0, 5, 5, 0 :: real]
   \<and> gap_free (map (month_start 2020) [1, 2, 3, 4])
   \<and> map (\<lambda>v. v > 3/2) [0, 5, 5, 0 :: real]
       = replicate 1 False @ replicate 2 True @ replicate 1 False
   \<and> detect_events np_percentile [0, 5, 5, 0] (map (month_start 2020) [1, 2, 3, 4])
        ''zscore'' 90 (3/2) 2
      = Inr ([(month_start 2020 2, month_start 2020 3, 2)], [False, True, True, False])
   \<and> detect_events np_percentile [0, 5, 5, 0] (map (month_start 2020) [1, 2, 3, 4])
        ''zscore'' 90 (3/2) 3
      = Inr ([], [False, True, True, False])"
proof -
  let ?ti = "map (month_start 2020) [1, 2, 3, 4]"
  have two: "detect_events np_percentile [0, 5, 5, 0] ?ti ''zscore'' 90 (3/2) 2
      = Inr ([(month_start 2020 2, month_start 2020 3, 2)], [False, True, True, False])"
  proof -
    from min_duration_filter [OF example_short(1,2,3), of 2] obtain evs where
      d: "detect_events np_percentile [0, 5, 5, 0] ?ti ''zscore'' 90 (3/2) 2
            = Inr (evs, map (\<lambda>v. v > 3/2) [0, 5, 5, 0 :: real])"
      and c: "\<forall>a k b. map (\<lambda>v. v > 3/2) [0, 5, 5, 0 :: real]
                = replicate a False @ replicate k True @ replicate b False \<and> 0 < k
              \<longrightarrow> evs = (if 2 \<le> int k then [(?ti ! a, ?ti ! (a + k - 1), int k)] else [])"
      by blast
    from c [rule_format, of 1 2 1] example_short(4)
    have "evs = [(?ti ! 1, ?ti ! (1 + 2 - 1), 2)]" by simp
    with d show ?thesis by simp
  qed
  have three: "detect_events np_percentile [0, 5, 5, 0] ?ti ''zscore'' 90 (3/2) 3
      = Inr ([], [False, True, True, False])"
  proof -
    from min_duration_filter [OF example_short(1,2,3), of 3] obtain evs where
      d: "detect_events np_percentile [0, 5, 5, 0] ?ti ''zscore'' 90 (3/2) 3
            = Inr (evs, map (\<lambda>v. v > 3/2) [0, 5, 5, 0 :: real])"
      and c: "\<forall>a k b. map (\<lambda>v. v > 3/2) [0, 5, 5, 0 :: real]
                = replicate a False @ replicate k True @ replicate b False \<and> 0 < k
              \<longrightarrow> evs = (if 3 \<le> int k then [(?ti ! a, ?ti ! (a + k - 1), int k)] else [])"
      by blast
    from c [rule_format, of 1 2 1] example_short(4)
    have "evs = []" by simp
    with d show ?thesis by simp
  qed
  show ?thesis
    using example_short two three by simp
qed

text \<open>
  Claim C3. On a series and a time index of the same length whose months strictly
  increase, each event ends in an earlier month than the next one starts (so events do not
  overlap and are ordered by start), each duration is the month of the end minus the
  month of the start plus one, and each event is one maximal run of true mask entries:
  two runs with a false entry between them, both long enough, are two events.
\<close>

theorem events_ordered_disjoint:
  assumes "threshold_of percentile series method pct z_thresh th"
    and "length time_index = length series"
    and "months_increasing time_index"
  shows "\<exists>evs bmask.
           detect_events percentile series time_index method pct z_thresh md = Inr (evs, bmask)
           \<and> bmask = map (\<lambda>v. v > th) series
           \<and> sorted_wrt (\<lambda>(s1, e1, d1) (s2, e2, d2). to_period_M e1 < to_period_M s2) evs
           \<and> sorted_wrt (\<lambda>(s1, e1, d1) (s2, e2, d2). to_period_M s1 < to_period_M s2) evs
           \<and> (\<forall>(s, e, d) \<in> set evs.
                 d = to_period_M e - to_period_M s + 1 \<and> to_period_M s \<le> to_period_M e)
           \<and> (\<forall>ev \<in> set evs. \<exists>s k. true_run bmask s k
                 \<and> ev = run_event time_index (s, s + k - 1))
           \<and> (\<forall>a k g l b.
                 bmask = replicate a False @ replicate k True @ replicate g False
                           @ replicate l True @ replicate b False
                 \<and> 0 < k \<and> 0 < g \<and> 0 < l \<and> md \<le> int k \<and> md \<le> int l
                 \<longrightarrow> evs = [run_event time_index (a, a + k - 1),
                            run_event time_index (a + k + g, a + k + g + l - 1)])"
proof -
  let ?bmask = "map (\<lambda>v. th < v) series"
  let ?evs = "run_events time_index md (true_runs 0 ?bmask)"
  have len: "length ?bmask = length time_index" using assms(2) by simp
  have ev: "d = to_period_M e - to_period_M s + 1 \<and> to_period_M s \<le> to_period_M e"
    if "(s, e, d) \<in> set ?evs" for s e d
  proof -
    from that obtain i j where ij: "i \<le> j" "j < length ?bmask"
      "(s, e, d) = (time_index ! i, time_index ! j, run_duration time_index (i, j))"
      by (rule event_of_run)
    then show ?thesis
      using months_increasing_span [OF assms(3), of i j] len by (simp add: run_duration_def)
  qed
  have s1: "sorted_wrt (\<lambda>(s1, e1, d1) (s2, e2, d2). to_period_M e1 < to_period_M s2) ?evs"
    using run_events_sorted [OF assms(3) len, of md] by (simp add: case_prod_unfold)
  have s2: "sorted_wrt (\<lambda>(s1, e1, d1) (s2, e2, d2). to_period_M s1 < to_period_M s2) ?evs"
  proof (rule sorted_wrt_mono_rel [OF _ s1])
    fix a b assume a: "a \<in> set ?evs" and "b \<in> set ?evs"
      and lt: "(\<lambda>(s1, e1, d1) (s2, e2, d2). to_period_M e1 < to_period_M s2) a b"
    obtain s1 e1 d1 where a': "a = (s1, e1, d1)" by (cases a)
    with a ev have "to_period_M s1 \<le> to_period_M e1" by blast
    with lt a' show "(\<lambda>(s1, e1, d1) (s2, e2, d2). to_period_M s1 < to_period_M s2) a b"
      by (auto simp add: case_prod_unfold)
  qed
  have B: "\<exists>s k. true_run ?bmask s k \<and> ev = run_event time_index (s, s + k - 1)"
    if "ev \<in> set ?evs" for ev
  proof -
    from that obtain s e where se: "s \<le> e" "true_run ?bmask s (Suc e - s)"
      "ev = (time_index ! s, time_index ! e, run_duration time_index (s, e))"
      by (rule event_of_run)
    then have "true_run ?bmask s (Suc e - s)
        \<and> ev = run_event time_index (s, s + (Suc e - s) - 1)"
      by (simp add: run_event_def)
    then show ?thesis by blast
  qed
  have C: "?evs = [run_event time_index (a, a + k - 1),
                   run_event time_index (a + k + g, a + k + g + l - 1)]"
    if "?bmask = replicate a False @ replicate k True @ replicate g False
                   @ replicate l True @ replicate b False
        \<and> 0 < k \<and> 0 < g \<and> 0 < l \<and> md \<le> int k \<and> md \<le> int l" for a k g l b
  proof -
    from that have shape: "?bmask = replicate a False @ replicate k True @ replicate g False
                   @ replicate l True @ replicate b False"
      and pos: "0 < k" "0 < g" "0 < l" and md: "md \<le> int k" "md \<le> int l"
      by simp_all
    have "length ?bmask = a + k + g + l + b" by (subst shape) simp
    then have in1: "a + k - 1 < length time_index"
      and in2: "a + k + g + l - 1 < length time_index"
      using pos len by simp_all
    have "int k \<le> run_duration time_index (a, a + k - 1)"
      using run_duration_increasing [OF assms(3), of a "a + k - 1"] in1 pos by simp
    moreover have "int l \<le> run_duration time_index (a + k + g, a + k + g + l - 1)"
      using run_duration_increasing [OF assms(3), of "a + k + g" "a + k + g + l - 1"] in2 pos
      by simp
    moreover have "true_runs 0 ?bmask = [(a, a + k - 1), (a + k + g, a + k + g + l - 1)]"
      using true_runs_two [OF pos, of 0 a b] shape by simp
    ultimately show ?thesis using md by (simp add: run_events_def)
  qed
  have E: "\<forall>(s, e, d) \<in> set ?evs.
      d = to_period_M e - to_period_M s + 1 \<and> to_period_M s \<le> to_period_M e"
    using ev by blast
  show ?thesis
    using detect_events_runs [OF assms(1,2), of md] s1 s2 E B C by (intro exI conjI) blast+
qed

theorem events_ordered_disjoint_witness:
  "threshold_of np_percentile [5, 5, 0, 5, 5] ''zscore'' 90 (3/2) (3/2)
   \<and> length (map (month_start 2020) [1, 2, 3, 4, 5]) = length [5, 5, 0, 5, 5 :: real]
   \<and> months_increasing (map (month_start 2020) [1, 2, 3, 4, 5])
   \<and> map (\<lambda>v. v > 3/2) [5, 5, 0, 5, 5 :: real]
       = replicate 0 False @ replicate 2 True @ replicate 1 False @ replicate 2 True
           @ replicate 0 False
   \<and> detect_events np_percentile [5, 5, 0, 5, 5] (map (month_start 2020) [1, 2, 3, 4, 5])
        ''zscore'' 90 (3/2) 2
      = Inr ([(month_start 2020 1, month_start 2020 2, 2),
              (month_start 2020 4, month_start 2020 5, 2)],
             [True, True, False, True, True])
   \<and> to_period_M (month_start 2020 2) < to_period_M (month_start 2020 4)"
proof -
  let ?ti = "map (month_start 2020) [1, 2, 3, 4, 5]"
  from events_ordered_disjoint [OF example_two_runs(1,2,3), of 2] obtain evs where
    d: "detect_events np_percentile [5, 5, 0, 5, 5] ?ti ''zscore'' 90 (3/2) 2
          = Inr (evs, map (\<lambda>v. v > 3/2) [5, 5, 0, 5, 5 :: real])"
    and c: "\<forall>a k g l b.
        map (\<lambda>v. v > 3/2) [5, 5, 0, 5, 5 :: real]
          = replicate a False @ replicate k True @ replicate g False
              @ replicate l True @ replicate b False
        \<and> 0 < k \<and> 0 < g \<and> 0 < l \<and> 2 \<le> int k \<and> 2 \<le> int l
        \<longrightarrow> evs = [run_event ?ti (a, a + k - 1), run_event ?ti (a + k + g, a + k + g + l - 1)]"
    by blast
  from c [rule_format, of 0 2 1 2 0] example_two_runs(4)
  have "evs = [run_event ?ti (0, 0 + 2 - 1), run_event ?ti (0 + 2 + 1, 0 + 2 + 1 + 2 - 1)]"
    by simp
  then have "evs = [(month_start 2020 1, month_start 2020 2, 2),
      (month_start 2020 4, month_start 2020 5, 2)]"
    by (simp add: run_event_def run_duration_def month_start_def to_period_M_def)
  with d example_two_runs show ?thesis
    by (simp add: month_start_def to_period_M_def)
qed

text \<open>
  Claim C4. When the mask is true at the final index of a series as long as its time
  index, in either mode, the run that is open there starts at index \<open>i\<close>, the first
  index of the final stretch of values above the threshold. The function reports the
  events of the entries before \<open>i\<close> and then, if it lasts long enough, the open run from
  \<open>time_index[i]\<close> to the last timestamp of \<open>time_index\<close>. These are the events the scan
  gives on the same mask followed by one false entry (with one more timestamp \<open>t\<close>), where
  the false entry closes the run; and whenever the series extended by a value \<open>v\<close> not
  above the threshold has the same threshold, the function returns them on the extended
  series too.
\<close>

theorem open_run_closed_at_last_timestamp:
  assumes "threshold_of percentile series method pct z_thresh th"
    and "length time_index = length series"
    and "series \<noteq> []" and "last series > th"
    and "i = length series - length (takeWhile (\<lambda>x. x > th) (rev series))"
    and "d = to_period_M (last time_index) - to_period_M (time_index ! i) + 1"
  shows "\<exists>evs0.
           find_events (take i time_index) (take i (map (\<lambda>x. x > th) series)) md = Inr evs0
           \<and> detect_events percentile series time_index method pct z_thresh md
               = Inr (evs0 @ (if md \<le> d then [(time_index ! i, last time_index, d)] else []),
                      map (\<lambda>x. x > th) series)
           \<and> find_events (time_index @ [t]) (map (\<lambda>x. x > th) series @ [False]) md
               = Inr (evs0 @ (if md \<le> d then [(time_index ! i, last time_index, d)] else []))
           \<and> (\<forall>v. threshold_of percentile (series @ [v]) method pct z_thresh th \<and> \<not> v > th
                 \<longrightarrow> detect_events percentile (series @ [v]) (time_index @ [t]) method pct
                       z_thresh md
                     = Inr (evs0 @ (if md \<le> d then [(time_index ! i, last time_index, d)]
                                    else []),
                            map (\<lambda>x. x > th) series @ [False]))"
proof -
  let ?bs = "map (\<lambda>x. th < x) series"
  let ?k = "length (takeWhile (\<lambda>b. b) (rev ?bs))"
  let ?evs0 = "run_events time_index md (true_runs 0 (take i ?bs))"
  let ?final = "if md \<le> d then [(time_index ! i, last time_index, d)] else []"
  have len: "length ?bs = length time_index" using assms(2) by simp
  have "?k = length (takeWhile (\<lambda>x. th < x) (rev series))"
    by (simp add: rev_map takeWhile_map comp_def)
  then have i: "i = length ?bs - ?k" using assms(5) by simp
  have "?bs \<noteq> []" "last ?bs" using assms(3,4) by (simp_all add: last_map)
  from final_run_split [OF this] have k: "0 < ?k" "?k \<le> length ?bs"
    and split: "?bs = take i ?bs @ replicate ?k True"
    and before: "take i ?bs = [] \<or> \<not> last (take i ?bs)"
    unfolding i by simp_all
  have li: "length (take i ?bs) = i" using i by simp
  have "true_runs 0 (take i ?bs @ replicate ?k True)
      = true_runs 0 (take i ?bs) @ [(0 + length (take i ?bs), 0 + length (take i ?bs) + ?k - 1)]"
    using before k(1) by (rule true_runs_final_run)
  then have runs: "true_runs 0 ?bs = true_runs 0 (take i ?bs) @ [(i, length time_index - 1)]"
    using split li i k len by simp
  have "time_index \<noteq> []" using assms(2,3) by auto
  then have last: "time_index ! (length time_index - 1) = last time_index"
    by (simp add: last_conv_nth)
  have final: "run_events time_index md [(i, length time_index - 1)] = ?final"
    using last assms(6) by (simp add: run_events_one run_duration_def)
  have evs: "run_events time_index md (true_runs 0 ?bs) = ?evs0 @ ?final"
    using runs final by (simp add: run_events_append)
  have "find_events (take i time_index) (take i ?bs) md
      = Inr (run_events (take i time_index) md (true_runs 0 (take i ?bs)))"
    using len by (intro find_events_runs) simp
  then have prefix: "find_events (take i time_index) (take i ?bs) md = Inr ?evs0"
    by (simp add: run_events_prefix)
  have whole: "detect_events percentile series time_index method pct z_thresh md
      = Inr (?evs0 @ ?final, ?bs)"
    using detect_events_runs [OF assms(1,2), of md] evs by simp
  have "find_events (time_index @ [t]) (?bs @ [False]) md
      = Inr (run_events (time_index @ [t]) md (true_runs 0 (?bs @ [False])))"
    using len by (intro find_events_runs) simp
  then have closed: "find_events (time_index @ [t]) (?bs @ [False]) md = Inr (?evs0 @ ?final)"
    using evs len by (simp add: true_runs_snoc_False run_events_snoc)
  have extended: "detect_events percentile (series @ [v]) (time_index @ [t]) method pct
      z_thresh md = Inr (?evs0 @ ?final, ?bs @ [False])"
    if "threshold_of percentile (series @ [v]) method pct z_thresh th \<and> \<not> v > th" for v
  proof -
    from that have thr: "threshold_of percentile (series @ [v]) method pct z_thresh th"
      and low: "\<not> v > th" by simp_all
    have "map (\<lambda>x. th < x) (series @ [v]) = ?bs @ [False]"
      using low by simp
    then have "build_mask percentile (series @ [v]) method pct z_thresh = Inr (?bs @ [False])"
      using build_mask_threshold [OF thr] by simp
    then show ?thesis
      using closed by (simp add: detect_events_def)
  qed
  from prefix whole closed extended show ?thesis by blast
qed

theorem open_run_closed_at_last_timestamp_witness:
  "threshold_of np_percentile [0, 10] ''percentile'' 10 (3/2) 1
   \<and> length (map (month_start 2020) [1, 2]) = length [0, 10 :: real]
   \<and> [0, 10 :: real] \<noteq> []
   \<and> last [0, 10 :: real] > 1
   \<and> (1 :: nat) = length [0, 10 :: real]
        - length (takeWhile (\<lambda>x. x > 1) (rev [0, 10 :: real]))
   \<and> (1 :: int) = to_period_M (last (map (month_start 2020) [1, 2]))
        - to_period_M (map (month_start 2020) [1, 2] ! 1) + 1
   \<and> detect_events np_percentile [0, 10] (map (month_start 2020) [1, 2])
        ''percentile'' 10 (3/2) 1
      = Inr ([(month_start 2020 2, month_start 2020 2, 1)], [False, True])
   \<and> find_events (map (month_start 2020) [1, 2] @ [month_start 2020 3])
        ([False, True] @ [False]) 1
      = Inr [(month_start 2020 2, month_start 2020 2, 1)]
   \<and> threshold_of np_percentile [0, 5, 0, 5, 5] ''zscore'' 90 (3/2) (3/2)
   \<and> length (map (month_start 2020) [1, 2, 3, 4, 5]) = length [0, 5, 0, 5, 5 :: real]
   \<and> [0, 5, 0, 5, 5 :: real] \<noteq> []
   \<and> last [0, 5, 0, 5, 5 :: real] > 3/2
   \<and> (3 :: nat) = length [0, 5, 0, 5, 5 :: real]
        - length (takeWhile (\<lambda>x. x > 3/2) (rev [0, 5, 0, 5, 5 :: real]))
   \<and> (2 :: int) = to_period_M (last (map (month_start 2020) [1, 2, 3, 4, 5]))
        - to_period_M (map (month_start 2020) [1, 2, 3, 4, 5] ! 3) + 1
   \<and> detect_events np_percentile [0, 5, 0, 5, 5] (map (month_start 2020) [1, 2, 3, 4, 5])
        ''zscore'' 90 (3/2) 2
      = Inr ([(month_start 2020 4, month_start 2020 5, 2)], [False, True, False, True, True])
   \<and> find_events (map (month_start 2020) [1, 2, 3, 4, 5] @ [month_start 2020 6])
        ([False, True, False, True, True] @ [False]) 2
      = Inr [(month_start 2020 4, month_start 2020 5, 2)]
   \<and> threshold_of np_percentile ([0, 5, 0, 5, 5] @ [0]) ''zscore'' 90 (3/2) (3/2)
   \<and> \<not> (0 :: real) > 3/2
   \<and> detect_events np_percentile ([0, 5, 0, 5, 5] @ [0])
        (map (month_start 2020) [1, 2, 3, 4, 5] @ [month_start 2020 6]) ''zscore'' 90 (3/2) 2
      = Inr ([(month_start 2020 4, month_start 2020 5, 2)],
             [False, True, False, True, True, False])"
proof -
  let ?tp = "map (month_start 2020) [1, 2]"
  let ?sp = "[0, 10 :: real]"
  let ?ti = "map (month_start 2020) [1, 2, 3, 4, 5]"
  let ?s = "[0, 5, 0, 5, 5 :: real]"
  from open_run_closed_at_last_timestamp [OF example_open_percentile, of 1 "month_start 2020 3"]
  obtain evp where
    pp: "find_events (take 1 ?tp) (take 1 (map (\<lambda>x. x > 1) ?sp)) 1 = Inr evp"
    and wp: "detect_events np_percentile ?sp ?tp ''percentile'' 10 (3/2) 1
        = Inr (evp @ (if (1::int) \<le> 1 then [(?tp ! 1, last ?tp, 1)] else []),
               map (\<lambda>x. x > 1) ?sp)"
    and cp: "find_events (?tp @ [month_start 2020 3]) (map (\<lambda>x. x > 1) ?sp @ [False]) 1
        = Inr (evp @ (if (1::int) \<le> 1 then [(?tp ! 1, last ?tp, 1)] else []))"
    by blast
  have "find_events (take 1 ?tp) (take 1 (map (\<lambda>x. x > 1) ?sp)) 1 = Inr []"
    by (simp add: find_events_def init_state_def getitem_def finish_def close_event_def
        to_period_M_def month_start_def)
  with pp have evp: "evp = []" by simp
  from open_run_closed_at_last_timestamp [OF example_open_run, of 2 "month_start 2020 6"]
  obtain evs0 where
    p: "find_events (take 3 ?ti) (take 3 (map (\<lambda>x. x > 3/2) ?s)) 2 = Inr evs0"
    and w: "detect_events np_percentile ?s ?ti ''zscore'' 90 (3/2) 2
        = Inr (evs0 @ (if (2::int) \<le> 2 then [(?ti ! 3, last ?ti, 2)] else []),
               map (\<lambda>x. x > 3/2) ?s)"
    and c: "find_events (?ti @ [month_start 2020 6]) (map (\<lambda>x. x > 3/2) ?s @ [False]) 2
        = Inr (evs0 @ (if (2::int) \<le> 2 then [(?ti ! 3, last ?ti, 2)] else []))"
    and x: "\<forall>v. threshold_of np_percentile (?s @ [v]) ''zscore'' 90 (3/2) (3/2) \<and> \<not> v > 3/2
        \<longrightarrow> detect_events np_percentile (?s @ [v]) (?ti @ [month_start 2020 6]) ''zscore'' 90
              (3/2) 2
            = Inr (evs0 @ (if (2::int) \<le> 2 then [(?ti ! 3, last ?ti, 2)] else []),
                   map (\<lambda>x. x > 3/2) ?s @ [False])"
    by blast
  have "find_events (take 3 ?ti) (take 3 (map (\<lambda>x. x > 3/2) ?s)) 2 = Inr []"
    by (simp add: find_events_def init_state_def getitem_def finish_def close_event_def
        to_period_M_def month_start_def)
  with p have evs0: "evs0 = []" by simp
  from x [rule_format, of 0] example_open_run_extended
  have e: "detect_events np_percentile (?s @ [0]) (?ti @ [month_start 2020 6]) ''zscore'' 90
        (3/2) 2
      = Inr (evs0 @ (if (2::int) \<le> 2 then [(?ti ! 3, last ?ti, 2)] else []),
             map (\<lambda>x. x > 3/2) ?s @ [False])"
    by blast
  have first: "detect_events np_percentile ?sp ?tp ''percentile'' 10 (3/2) 1
      = Inr ([(month_start 2020 2, month_start 2020 2, 1)], [False, True])"
    using wp evp by simp
  have second: "find_events (?tp @ [month_start 2020 3]) ([False, True] @ [False]) 1
      = Inr [(month_start 2020 2, month_start 2020 2, 1)]"
    using cp evp by simp
  have third: "detect_events np_percentile ?s ?ti ''zscore'' 90 (3/2) 2
      = Inr ([(month_start 2020 4, month_start 2020 5, 2)], [False, True, False, True, True])"
    using w evs0 by simp
  have fourth: "find_events (?ti @ [month_start 2020 6])
        ([False, True, False, True, True] @ [False]) 2
      = Inr [(month_start 2020 4, month_start 2020 5, 2)]"
    using c evs0 by simp
  have fifth: "detect_events np_percentile (?s @ [0]) (?ti @ [month_start 2020 6]) ''zscore'' 90
        (3/2) 2
      = Inr ([(month_start 2020 4, month_start 2020 5, 2)],
             [False, True, False, True, True, False])"
    using e evs0 by simp
  show ?thesis
    using example_open_percentile example_open_run example_open_run_extended
      first second third fourth fifth
    by (intro conjI) simp_all
qed

text \<open>
  Claim C5. As stated, the claim fails on an empty series in percentile mode: the empty
  array goes to \<open>np.percentile\<close> first (line 52), which raises on it, and the function
  has no guard for it.
\<close>

theorem empty_series_percentile_raises:
  "detect_events np_percentile [] [] ''percentile'' 90 (3/2) 2 = Inl IndexError"
  by (simp add: detect_events_def build_mask_def np_percentile_def)

text \<open>
  Claim C5, amended. In z-score mode an empty series gives no event and an empty mask. In
  percentile mode an empty series goes to the percentile computation: the function gives
  no event if that returns a threshold and raises its error otherwise. In both modes a
  series with no value above the threshold gives no event and an all-false mask.
\<close>

theorem empty_or_quiet_series:
  "detect_events percentile [] time_index ''zscore'' pct z_thresh md = Inr ([], [])
   \<and> detect_events percentile [] time_index ''percentile'' pct z_thresh md
       = (case percentile [] pct of Inl e \<Rightarrow> Inl e | Inr th \<Rightarrow> Inr ([], []))
   \<and> (threshold_of percentile series method pct z_thresh th \<and> (\<forall>v \<in> set series. \<not> v > th)
        \<longrightarrow> detect_events percentile series time_index method pct z_thresh md
              = Inr ([], replicate (length series) False))"
proof (intro conjI impI)
  show "detect_events percentile [] time_index ''zscore'' pct z_thresh md = Inr ([], [])"
    by (simp add: detect_events_def build_mask_def find_events_all_False)
  show "detect_events percentile [] time_index ''percentile'' pct z_thresh md
       = (case percentile [] pct of Inl e \<Rightarrow> Inl e | Inr th \<Rightarrow> Inr ([], []))"
    by (simp add: detect_events_def build_mask_def find_events_all_False split: sum.splits)
next
  assume a: "threshold_of percentile series method pct z_thresh th
      \<and> (\<forall>v \<in> set series. \<not> v > th)"
  then have "threshold_of percentile series method pct z_thresh th"
    and "\<forall>v \<in> set series. \<not> v > th"
    by simp_all
  then show "detect_events percentile series time_index method pct z_thresh md
              = Inr ([], replicate (length series) False)"
    by (rule detect_events_quiet)
qed

theorem empty_or_quiet_series_witness:
  "detect_events np_percentile [] [] ''zscore'' 90 (3/2) 2 = Inr ([], [])
   \<and> detect_events (\<lambda>a q. Inr 0) [] [] ''percentile'' 90 (3/2) 2 = Inr ([], [])
   \<and> detect_events np_percentile [] [] ''percentile'' 90 (3/2) 2 = Inl IndexError
   \<and> threshold_of np_percentile [1, 2, 3] ''percentile'' 100 (3/2) 3
   \<and> \<not> (1::real) > 3 \<and> \<not> (2::real) > 3 \<and> \<not> (3::real) > 3
   \<and> detect_events np_percentile [1, 2, 3]
        [month_start 2020 1, month_start 2020 2, month_start 2020 3] ''percentile'' 100 (3/2) 2
      = Inr ([], [False, False, False])"
proof -
  have h: "threshold_of np_percentile [1, 2, 3] ''percentile'' 100 (3/2) 3"
    by (simp add: threshold_of_def np_percentile_def)
  show ?thesis
    using h
      empty_or_quiet_series [of np_percentile "[]" 90 "3/2" 2 "[1, 2, 3]" "''percentile''" 3]
      empty_or_quiet_series [of "\<lambda>a q. Inr 0" "[]" 90 "3/2" 2 "[]" "''zscore''" "3/2"]
      empty_or_quiet_series [of np_percentile
        "[month_start 2020 1, month_start 2020 2, month_start 2020 3]" 100 "3/2" 2
        "[1, 2, 3]" "''percentile''" 3]
    by (simp add: np_percentile_def numeral_3_eq_3)
qed

text \<open>
  Claim C6. Whenever \<open>method\<close> is neither \<open>'percentile'\<close> nor \<open>'zscore'\<close>,
  \<open>detect_events\<close> raises \<open>ValueError\<close>. The result is this error for every series,
  time index and percentile function, also for those on which the percentile computation
  or the scan would raise an error of their own: neither is reached.
\<close>

theorem invalid_method_raises:
  "method \<noteq> ''percentile'' \<Longrightarrow> method \<noteq> ''zscore'' \<Longrightarrow>
     detect_events percentile series time_index method pct z_thresh min_duration_months
       = Inl ValueError"
  by (simp add: detect_events_def build_mask_def)

theorem invalid_method_raises_witness:
  "detect_events (\<lambda>a q. Inl IndexError) [] [] ''median'' 90 (3/2) 2 = Inl ValueError
   \<and> detect_events np_percentile [0, 5, 5] [month_start 2020 1] ''z-score'' 200 (3/2) 2
       = Inl ValueError"
  using invalid_method_raises [of "''median''" "\<lambda>a q. Inl IndexError" "[]" "[]" 90 "3/2" 2]
    invalid_method_raises [of "''z-score''" np_percentile "[0, 5, 5]" "[month_start 2020 1]" 200 "3/2" 2]
  by simp

text \<open>
  Claim C7. On a series and a time index of the same length the function returns, and the
  mask it returns has the length of the series, with entry \<open>i\<close> true exactly when
  \<open>series[i]\<close> is strictly greater than the threshold, so an entry equal to the threshold
  is false. The threshold is the value of the percentile computation in percentile mode
  and \<open>z_thresh\<close> itself in z-score mode (\<open>threshold_of\<close>).
\<close>

theorem mask_is_strict_comparison:
  assumes "threshold_of percentile series method pct z_thresh th"
    and "length time_index = length series"
  shows "\<exists>evs bmask.
           detect_events percentile series time_index method pct z_thresh md = Inr (evs, bmask)
           \<and> bmask = map (\<lambda>v. v > th) series
           \<and> length bmask = length series
           \<and> (\<forall>i < length series. bmask ! i = (series ! i > th))
           \<and> (\<forall>i < length series. series ! i = th \<longrightarrow> \<not> bmask ! i)"
  using detect_events_runs [OF assms, of md] by simp

theorem mask_is_strict_comparison_witness:
  "threshold_of np_percentile [1, 2, 3] ''percentile'' 50 (3/2) 2
   \<and> length [month_start 2021 11, month_start 2021 12, month_start 2022 1] = length [1, 2, 3 :: real]
   \<and> detect_events np_percentile [1, 2, 3]
        [month_start 2021 11, month_start 2021 12, month_start 2022 1] ''percentile'' 50 (3/2) 1
      = Inr ([(month_start 2022 1, month_start 2022 1, 1)], [False, False, True])"
proof -
  have h: "threshold_of np_percentile [1, 2, 3] ''percentile'' 50 (3/2) 2"
    by (simp add: threshold_of_def np_percentile_def)
  have l: "length [month_start 2021 11, month_start 2021 12, month_start 2022 1]
      = length [1, 2, 3 :: real]"
    by simp
  from mask_is_strict_comparison [OF h l, of 1] obtain evs where
    "detect_events np_percentile [1, 2, 3]
        [month_start 2021 11, month_start 2021 12, month_start 2022 1] ''percentile'' 50 (3/2) 1
      = Inr (evs, [False, False, True])"
    by auto
  moreover have "find_events [month_start 2021 11, month_start 2021 12, month_start 2022 1]
      [False, False, True] 1 = Inr [(month_start 2022 1, month_start 2022 1, 1)]"
    by (simp add: find_events_def init_state_def getitem_def finish_def close_event_def
        to_period_M_def month_start_def)
  ultimately show ?thesis
    using h by (auto simp add: detect_events_def split: sum.splits)
qed

text \<open>
  Claim C8. For a non-empty series with no value strictly above the threshold the function
  returns no event and a mask that is false everywhere, whatever the time index.
\<close>

theorem nothing_above_threshold:
  assumes "threshold_of percentile series method pct z_thresh th"
    and "series \<noteq> []"
    and "\<forall>v \<in> set series. \<not> v > th"
  shows "detect_events percentile series time_index method pct z_thresh md
           = Inr ([], replicate (length series) False)"
  using assms(1,3) by (rule detect_events_quiet)

theorem nothing_above_threshold_witness:
  "threshold_of np_percentile [0, 1, 3/2] ''zscore'' 90 (3/2) (3/2)
   \<and> [0, 1, 3/2 :: real] \<noteq> []
   \<and> \<not> (0::real) > 3/2 \<and> \<not> (1::real) > 3/2 \<and> \<not> (3/2::real) > 3/2
   \<and> detect_events np_percentile [0, 1, 3/2]
        [month_start 2020 1, month_start 2020 2, month_start 2020 3] ''zscore'' 90 (3/2) 2
      = Inr ([], [False, False, False])"
proof -
  have h: "threshold_of np_percentile [0, 1, 3/2] ''zscore'' 90 (3/2) (3/2)"
    by (simp add: threshold_of_def)
  have n: "[0, 1, 3/2 :: real] \<noteq> []" by simp
  have a: "\<forall>v \<in> set [0, 1, 3/2 :: real]. \<not> v > 3/2" by simp
  show ?thesis
    using h nothing_above_threshold [OF h n a,
        of "[month_start 2020 1, month_start 2020 2, month_start 2020 3]" 2]
    by (simp add: numeral_3_eq_3)
qed

text \<open>
  Claim C9. In z-score mode the result does not depend on \<open>pct\<close>, and in percentile mode
  it does not depend on \<open>z_thresh\<close>: two calls that differ only in the parameter the mode
  does not use return the same events and mask (or raise the same error).
\<close>

theorem unused_parameter_ignored:
  "detect_events percentile series time_index ''zscore'' pct z_thresh md
     = detect_events percentile series time_index ''zscore'' pct' z_thresh md
   \<and> detect_events percentile series time_index ''percentile'' pct z_thresh md
     = detect_events percentile series time_index ''percentile'' pct z_thresh' md"
  by (simp add: detect_events_def build_mask_def)

text \<open>
  Claim C10. On a series and a time index of the same length, every event has a start
  and an end taken from \<open>time_index\<close>, the start at a position at or before the position
  of the end, and a duration of at least \<open>min_duration_months\<close>; when the months of the
  time index increase, the month of the start is at or before the month of the end.
\<close>

theorem events_within_time_index:
  assumes "threshold_of percentile series method pct z_thresh th"
    and "length time_index = length series"
  shows "\<exists>evs bmask.
           detect_events percentile series time_index method pct z_thresh md = Inr (evs, bmask)
           \<and> (\<forall>(s, e, d) \<in> set evs.
                 s \<in> set time_index \<and> e \<in> set time_index
                 \<and> (\<exists>i j. i \<le> j \<and> j < length time_index
                        \<and> s = time_index ! i \<and> e = time_index ! j)
                 \<and> md \<le> d
                 \<and> (months_increasing time_index \<longrightarrow> to_period_M s \<le> to_period_M e))"
proof -
  let ?bmask = "map (\<lambda>v. th < v) series"
  let ?evs = "run_events time_index md (true_runs 0 ?bmask)"
  have "s \<in> set time_index \<and> e \<in> set time_index
      \<and> (\<exists>i j. i \<le> j \<and> j < length time_index \<and> s = time_index ! i \<and> e = time_index ! j)
      \<and> md \<le> d
      \<and> (months_increasing time_index \<longrightarrow> to_period_M s \<le> to_period_M e)"
    if "(s, e, d) \<in> set ?evs" for s e d
  proof -
    from that obtain i j where ij: "i \<le> j" "j < length ?bmask"
      "md \<le> run_duration time_index (i, j)"
      "(s, e, d) = (time_index ! i, time_index ! j, run_duration time_index (i, j))"
      by (rule event_of_run)
    then have j: "j < length time_index" and i: "i < length time_index"
      using assms(2) by simp_all
    have "months_increasing time_index \<longrightarrow> to_period_M s \<le> to_period_M e"
      using months_increasing_span [of time_index i j] ij j by auto
    moreover have "\<exists>i j. i \<le> j \<and> j < length time_index
        \<and> s = time_index ! i \<and> e = time_index ! j"
      using ij j by blast
    ultimately show ?thesis using ij i j by simp
  qed
  then show ?thesis
    using detect_events_runs [OF assms, of md] by auto
qed

theorem events_within_time_index_witness:
  "threshold_of np_percentile [0, 0, 5, 5, 5, 0, 0, 5, 0] ''zscore'' 90 (3/2) (3/2)
   \<and> length (map (month_start 2020) [1, 2, 3, 4, 5, 6, 7, 8, 9])
       = length [0, 0, 5, 5, 5, 0, 0, 5, 0 :: real]
   \<and> detect_events np_percentile [0, 0, 5, 5, 5, 0, 0, 5, 0]
       (map (month_start 2020) [1, 2, 3, 4, 5, 6, 7, 8, 9]) ''zscore'' 90 (3/2) 2
     = Inr ([(month_start 2020 3, month_start 2020 5, 3)],
            [False, False, True, True, True, False, False, True, False])
   \<and> month_start 2020 3 \<in> set (map (month_start 2020) [1, 2, 3, 4, 5, 6, 7, 8, 9])
   \<and> month_start 2020 5 \<in> set (map (month_start 2020) [1, 2, 3, 4, 5, 6, 7, 8, 9])
   \<and> (2::int) \<le> 3
   \<and> months_increasing (map (month_start 2020) [1, 2, 3, 4, 5, 6, 7, 8, 9])
   \<and> to_period_M (month_start 2020 3) \<le> to_period_M (month_start 2020 5)"
proof -
  have l: "length (map (month_start 2020) [1, 2, 3, 4, 5, 6, 7, 8, 9])
       = length [0, 0, 5, 5, 5, 0, 0, 5, 0 :: real]"
    by simp
  show ?thesis
    using events_within_time_index [OF example_2020_threshold l, of 2]
      example_2020 example_2020_threshold example_2020_increasing
    by auto
qed

end
